theory Spec2Isabelle
  imports Complex_Main
begin

section \<open>JavaScript values and coercions\<close>

text \<open>
  The tree builder and the inference routines of \<^verbatim>\<open>dataLoader.ts\<close> (buildDecisionTree,
  predictFromTree) and of \<^verbatim>\<open>DecisionTree.tsx\<close> (calculateFeatureImportance,
  highlightDecisionPath) are embedded as HOL functions.

  A field of a record is a string or a number (\<^verbatim>\<open>DataPoint = {[key: string]: string | number}\<close>).
  Numbers are IEEE doubles in the source; here they are real numbers, so every result below is
  about exact arithmetic. A property that is read and absent is \<^verbatim>\<open>undefined\<close>: the value
  \<open>None\<close> of an option.
\<close>

datatype val = Num real | Str string

text \<open>The result of \<^verbatim>\<open>Number(v)\<close>: not a number, an infinity or a finite number.\<close>

datatype jsnum = NaN | NegInf | Fin real | PosInf

datatype error = TypeError

text \<open>
  The two built-in conversions between numbers and strings, \<^verbatim>\<open>String(n)\<close> of a number and
  \<^verbatim>\<open>Number(s)\<close> of a string, are not code of the repository. Every function takes them as
  a parameter, and every general theorem holds for all of them.
\<close>

record jsconv =
  num_str :: "real \<Rightarrow> string"
  str_num :: "string \<Rightarrow> jsnum"

fun String_js :: "jsconv \<Rightarrow> val option \<Rightarrow> string" where
  "String_js cv None = ''undefined''"
| "String_js cv (Some (Str s)) = s"
| "String_js cv (Some (Num r)) = num_str cv r"

fun Number_js :: "jsconv \<Rightarrow> val option \<Rightarrow> jsnum" where
  "Number_js cv None = NaN"
| "Number_js cv (Some (Num r)) = Fin r"
| "Number_js cv (Some (Str s)) = str_num cv s"

text \<open>\<^verbatim>\<open>a < b\<close> and \<^verbatim>\<open>a <= b\<close> on numbers: false as soon as one side is NaN.\<close>

fun js_lt :: "jsnum \<Rightarrow> jsnum \<Rightarrow> bool" where
  "js_lt NaN b = False"
| "js_lt a NaN = False"
| "js_lt (Fin a) (Fin b) = (a < b)"
| "js_lt NegInf NegInf = False"
| "js_lt NegInf b = True"
| "js_lt a NegInf = False"
| "js_lt PosInf b = False"
| "js_lt a PosInf = True"

fun js_le :: "jsnum \<Rightarrow> jsnum \<Rightarrow> bool" where
  "js_le NaN b = False"
| "js_le a NaN = False"
| "js_le (Fin a) (Fin b) = (a \<le> b)"
| "js_le NegInf b = True"
| "js_le a PosInf = True"
| "js_le a NegInf = False"
| "js_le PosInf b = False"

text \<open>\<^verbatim>\<open>typeof v === 'number'\<close>\<close>

fun is_number :: "val option \<Rightarrow> bool" where
  "is_number (Some (Num r)) = True"
| "is_number v = False"

text \<open>\<^verbatim>\<open>s === t\<close> for a string \<open>s\<close>: a number is never strictly equal to a string.\<close>

fun str_strict_eq :: "string \<Rightarrow> val \<Rightarrow> bool" where
  "str_strict_eq s (Str t) = (s = t)"
| "str_strict_eq s (Num r) = False"

section \<open>Objects used as dictionaries\<close>

text \<open>
  A record of the data set is the list of its own properties in the order of
  \<^verbatim>\<open>Object.keys\<close>; \<^verbatim>\<open>row[key]\<close> is \<open>map_of row key\<close>. A dictionary that the code
  fills (\<^verbatim>\<open>counts\<close>, \<^verbatim>\<open>distribution\<close>, \<^verbatim>\<open>importanceMap\<close>) is the list of its
  properties in insertion order.

  Only own properties are modelled. In the source a read \<^verbatim>\<open>obj[key]\<close> of a key that is not an
  own property falls back on \<^verbatim>\<open>Object.prototype\<close>, and a write to \<^verbatim>\<open>obj['__proto__']\<close> of a number
  stores nothing. So the model is the code where no key that is read or written and is not an
  own property is one of the names below: a target column, a class label or a feature name
  such as \<open>toString\<close>, \<open>constructor\<close> or \<open>__proto__\<close> is outside the model.
\<close>

definition inherited_names :: "string list" where
  "inherited_names =
    [''constructor'', ''__defineGetter__'', ''__defineSetter__'', ''hasOwnProperty'',
     ''__lookupGetter__'', ''__lookupSetter__'', ''isPrototypeOf'', ''propertyIsEnumerable'',
     ''toString'', ''valueOf'', ''__proto__'', ''toLocaleString'']"

type_synonym DataPoint = "(string \<times> val) list"

type_synonym 'a obj = "(string \<times> 'a) list"

fun obj_set :: "'a obj \<Rightarrow> string \<Rightarrow> 'a \<Rightarrow> 'a obj" where
  "obj_set [] k v = [(k, v)]"
| "obj_set ((k', v') # kvs) k v =
     (if k' = k then (k, v) # kvs else (k', v') # obj_set kvs k v)"

text \<open>
  \<^verbatim>\<open>Object.keys\<close>, \<^verbatim>\<open>Object.values\<close> and \<^verbatim>\<open>Object.entries\<close> list the array-index keys
  first (canonical decimal numerals below \<open>2^32 - 1\<close>), in ascending numeric order, then the
  other keys in insertion order.
\<close>

definition is_digit :: "char \<Rightarrow> bool" where
  "is_digit c = (48 \<le> (of_char c :: nat) \<and> (of_char c :: nat) \<le> 57)"

definition dec_value :: "string \<Rightarrow> nat" where
  "dec_value s = foldl (\<lambda>n c. 10 * n + ((of_char c :: nat) - 48)) 0 s"

definition array_index :: "string \<Rightarrow> nat option" where
  "array_index s =
     (if s \<noteq> [] \<and> list_all is_digit s \<and> (s = ''0'' \<or> hd s \<noteq> CHR ''0'')
         \<and> dec_value s < 2 ^ 32 - 1
      then Some (dec_value s) else None)"

definition index_of :: "string \<times> 'a \<Rightarrow> nat" where
  "index_of e = (case array_index (fst e) of Some n \<Rightarrow> n | None \<Rightarrow> 0)"

definition obj_entries :: "'a obj \<Rightarrow> (string \<times> 'a) list" where
  "obj_entries ob =
     sort_key index_of (filter (\<lambda>e. array_index (fst e) \<noteq> None) ob)
     @ filter (\<lambda>e. array_index (fst e) = None) ob"

text \<open>The elements of \<^verbatim>\<open>new Set(xs)\<close> in iteration order: first occurrences, in order.\<close>

definition set_add :: "'a list \<Rightarrow> 'a \<Rightarrow> 'a list" where
  "set_add acc x = (if x \<in> set acc then acc else acc @ [x])"

definition new_Set :: "'a list \<Rightarrow> 'a list" where
  "new_Set xs = foldl set_add [] xs"

section \<open>The tree\<close>

text \<open>
  buildDecisionTree returns one of two object shapes: a leaf
  \<^verbatim>\<open>{name, value: 1, confidence, samples, distribution, prediction: true}\<close> or a decision node
  \<^verbatim>\<open>{name, condition, confidence, feature, threshold, samples, distribution, children: [l, r]}\<close>.
  The constant fields and the display string \<^verbatim>\<open>condition\<close> are left out.
\<close>

datatype TreeNode =
    Leaf (name: string) (confidence: real) (samples: nat) (distribution: "nat obj")
  | Decision (name: string) (confidence: real) (feature: string) (threshold: val)
      (samples: nat) (distribution: "nat obj") (child0: TreeNode) (child1: TreeNode)

section \<open>formatFeatureName\<close>

definition featureMap :: "(string \<times> string) list" where
  "featureMap =
    [(''cp'', ''Chest Pain Type''),
     (''trestbps'', ''Resting Blood Pressure''),
     (''chol'', ''Cholesterol''),
     (''fbs'', ''Fasting Blood Sugar''),
     (''restecg'', ''Resting ECG''),
     (''thalach'', ''Max Heart Rate''),
     (''exang'', ''Exercise Induced Angina''),
     (''oldpeak'', ''ST Depression''),
     (''ca'', ''Number of Vessels''),
     (''thal'', ''Thalassemia''),
     (''applicant_income'', ''Monthly Income''),
     (''loan_amount'', ''Loan Amount''),
     (''loan_term'', ''Loan Term''),
     (''credit_history'', ''Credit History''),
     (''capital-gain'', ''Capital Gains''),
     (''capital-loss'', ''Capital Losses''),
     (''hours-per-week'', ''Hours per Week''),
     (''education-num'', ''Years of Education'')]"

text \<open>\<^verbatim>\<open>s.split('_')\<close>: the pieces between underscores, \<open>['']\<close> for the empty string.\<close>

fun split_underscore :: "string \<Rightarrow> string list" where
  "split_underscore [] = [[]]"
| "split_underscore (c # cs) =
     (if c = CHR ''_'' then [] # split_underscore cs
      else (case split_underscore cs of w # ws \<Rightarrow> (c # w) # ws | [] \<Rightarrow> [[c]]))"

text \<open>
  \<^verbatim>\<open>toUpperCase\<close> of one character, for the ASCII letters; other bytes are unchanged, so the
  model is the code on ASCII feature names.
\<close>

definition toUpperCase :: "char \<Rightarrow> char" where
  "toUpperCase c =
     (if 97 \<le> (of_char c :: nat) \<and> (of_char c :: nat) \<le> 122
      then char_of ((of_char c :: nat) - 32) else c)"

definition capitalize :: "string \<Rightarrow> string" where
  "capitalize word = (case word of [] \<Rightarrow> [] | c # cs \<Rightarrow> toUpperCase c # cs)"

fun join_space :: "string list \<Rightarrow> string" where
  "join_space [] = []"
| "join_space [w] = w"
| "join_space (w # ws) = w @ '' '' @ join_space ws"

definition formatFeatureName :: "string \<Rightarrow> string" where
  "formatFeatureName f =
     (case map_of featureMap f of
        Some pretty \<Rightarrow> pretty
      | None \<Rightarrow> join_space (map capitalize (split_underscore f)))"

section \<open>The tree builder\<close>

subsection \<open>Label counts, entropy, majority class\<close>

text \<open>
  getDistribution, getEntropy and getMajorityClass each fill a dictionary with the same loop:
  \<^verbatim>\<open>counts[value] = (counts[value] || 0) + 1\<close> for \<^verbatim>\<open>value = String(row[target])\<close>.
\<close>

definition count_row :: "jsconv \<Rightarrow> string \<Rightarrow> nat obj \<Rightarrow> DataPoint \<Rightarrow> nat obj" where
  "count_row cv target counts row =
     (let v = String_js cv (map_of row target)
      in obj_set counts v ((case map_of counts v of None \<Rightarrow> 0 | Some c \<Rightarrow> c) + 1))"

definition getDistribution :: "jsconv \<Rightarrow> string \<Rightarrow> DataPoint list \<Rightarrow> nat obj" where
  "getDistribution cv target sub = foldl (count_row cv target) [] sub"

text \<open>\<^verbatim>\<open>-Object.values(counts).reduce((sum, count) => sum + p * Math.log2(p), 0)\<close>\<close>

definition getEntropy :: "jsconv \<Rightarrow> string \<Rightarrow> DataPoint list \<Rightarrow> real" where
  "getEntropy cv target sub =
     - foldl (\<lambda>sum count.
          let p = real count / real (length sub) in sum + p * log 2 p)
        0 (map snd (obj_entries (getDistribution cv target sub)))"

text \<open>
  \<^verbatim>\<open>Object.entries(counts).reduce((a, b) => a[1] > b[1] ? a : b)[0]\<close>: on equal counts the
  later entry wins; \<^verbatim>\<open>reduce\<close> of an empty array with no initial value throws. (In the model
  \<open>counts\<close> is empty only for empty data; in the source also when every label is \<open>__proto__\<close>.)
\<close>

definition getMajorityClass :: "jsconv \<Rightarrow> string \<Rightarrow> DataPoint list \<Rightarrow> error + string" where
  "getMajorityClass cv target sub =
     (case obj_entries (getDistribution cv target sub) of
        [] \<Rightarrow> Inl TypeError
      | e # es \<Rightarrow> Inr (fst (foldl (\<lambda>a b. if snd a > snd b then a else b) e es)))"

subsection \<open>findBestSplit\<close>

text \<open>The four variables of the search; \<open>bestGain = None\<close> is \<^verbatim>\<open>-Infinity\<close>.\<close>

record best =
  bestGain :: "real option"
  bestFeature :: string
  bestThreshold :: val
  bestIsNumeric :: bool

text \<open>\<^verbatim>\<open>gain > bestGain\<close>: every gain is greater than \<^verbatim>\<open>-Infinity\<close>.\<close>

fun gain_gt :: "real \<Rightarrow> real option \<Rightarrow> bool" where
  "gain_gt g None = True"
| "gain_gt g (Some b) = (g > b)"

text \<open>
  The body that both inner loops share once \<open>left\<close> and \<open>right\<close> are computed: skip the
  candidate when a part has fewer than 5 records, else compute the gain and keep the candidate
  when the gain is strictly greater than the best so far.
\<close>

definition try_candidate :: "jsconv \<Rightarrow> string \<Rightarrow> DataPoint list \<Rightarrow> string \<Rightarrow> val \<Rightarrow> bool
    \<Rightarrow> DataPoint list \<Rightarrow> DataPoint list \<Rightarrow> best \<Rightarrow> best" where
  "try_candidate cv target sub f thr isNum left right b =
     (if length left < 5 \<or> length right < 5 then b
      else
        let entropyBefore = getEntropy cv target sub;
            entropyAfter =
              (real (length left) / real (length sub)) * getEntropy cv target left +
              (real (length right) / real (length sub)) * getEntropy cv target right;
            gain = entropyBefore - entropyAfter
        in if gain_gt gain (bestGain b)
           then \<lparr>bestGain = Some gain, bestFeature = f, bestThreshold = thr, bestIsNumeric = isNum\<rparr>
           else b)"

text \<open>
  \<^verbatim>\<open>for (let threshold = min + step; threshold < max; threshold += step)\<close>: the thresholds the
  loop visits. The test \<open>0 < step\<close> is not in the source; it makes the recursion total, and
  \<open>scan_numeric\<close> below only calls it with \<open>1 \<le> step\<close> (lemma \<open>numeric_step_ge_1\<close>).

  The source adds doubles, the model real numbers, and the two differ: the rounded sums can
  visit one threshold more or less than the exact ones (so the code can find a split that the
  model does not), and on values of magnitude \<open>2^53\<close> and more, where adding the step may leave
  the threshold unchanged, the loop of the source does not end. While every number of the data
  is below \<open>2^53\<close> in magnitude (\<open>safe_numbers\<close> below) the step, at least 1, is at least the
  spacing of the doubles there, every addition increases the threshold, and the loop of the
  source ends too.
\<close>

function thresholds :: "real \<Rightarrow> real \<Rightarrow> real \<Rightarrow> real list" where
  "thresholds t step mx =
     (if t < mx \<and> 0 < step then t # thresholds (t + step) step mx else [])"
  by pat_completeness auto

lemma thresholds_measure:
  fixes t s m :: real
  assumes "t < m" "0 < s"
  shows "\<lceil>(m - (t + s)) / s\<rceil> < \<lceil>(m - t) / s\<rceil>"
proof -
  have "(m - (t + s)) / s = (m - t) / s - 1"
    using assms by (simp add: field_simps)
  then have "\<lceil>(m - (t + s)) / s\<rceil> = \<lceil>(m - t) / s\<rceil> - 1"
    by simp
  then show ?thesis by linarith
qed

termination thresholds
  by (relation "measure (\<lambda>(t, s, m). nat \<lceil>(m - t) / s\<rceil>)")
     (auto simp del: ceiling_diff_one intro: thresholds_measure)

declare thresholds.simps [simp del]

lemma foldl_min_le_max: "foldl min v vs \<le> foldl max (v :: real) vs"
proof -
  have "foldl min a vs \<le> foldl max b vs" if "a \<le> b" for a b :: real
    using that by (induction vs arbitrary: a b) (auto simp: min_le_iff_disj le_max_iff_disj)
  then show ?thesis by simp
qed

lemma numeric_step_ge_1:
  fixes mn mx :: real
  assumes "mn \<le> mx" "min 20 (mx - mn) \<noteq> 0"
  shows "1 \<le> (mx - mn) / min 20 (mx - mn)"
  using assms by (auto simp: min_def field_simps)

text \<open>
  The numeric branch. \<^verbatim>\<open>values as number[]\<close> holds a number for every record here;
  \<^verbatim>\<open>Math.min(...[])\<close> is \<^verbatim>\<open>Infinity\<close>, so an empty array gives no threshold. When
  \<open>max = min\<close> the step is \<^verbatim>\<open>0 / 0 = NaN\<close> and the loop body never runs.

  \<^verbatim>\<open>Math.min(...numericValues)\<close> passes one argument per record; an engine throws a RangeError
  beyond its limit of arguments (at about 130000 on a default stack; some engines stop at
  65536). The model has no such limit: it is the code on data of at most \<open>spread_limit\<close>
  records.
\<close>

definition spread_limit :: nat where
  "spread_limit = 65535"

definition numericValues :: "string \<Rightarrow> DataPoint list \<Rightarrow> real list" where
  "numericValues f sub = [r. Some (Num r) \<leftarrow> map (\<lambda>row. map_of row f) sub]"

definition numeric_left :: "jsconv \<Rightarrow> string \<Rightarrow> jsnum \<Rightarrow> DataPoint list \<Rightarrow> DataPoint list" where
  "numeric_left cv f t sub = filter (\<lambda>row. js_le (Number_js cv (map_of row f)) t) sub"

definition numeric_right :: "jsconv \<Rightarrow> string \<Rightarrow> jsnum \<Rightarrow> DataPoint list \<Rightarrow> DataPoint list" where
  "numeric_right cv f t sub = filter (\<lambda>row. js_lt t (Number_js cv (map_of row f))) sub"

definition scan_numeric :: "jsconv \<Rightarrow> string \<Rightarrow> DataPoint list \<Rightarrow> string \<Rightarrow> best \<Rightarrow> best" where
  "scan_numeric cv target sub f b =
     (case numericValues f sub of
        [] \<Rightarrow> b
      | v # vs \<Rightarrow>
          let mn = foldl min v vs;
              mx = foldl max v vs;
              steps = min 20 (mx - mn);
              step = (mx - mn) / steps
          in if steps = 0 then b
             else foldl (\<lambda>b t.
                    try_candidate cv target sub f (Num t) True
                      (numeric_left cv f (Fin t) sub) (numeric_right cv f (Fin t) sub) b)
                  b (thresholds (mn + step) step mx))"

text \<open>The categorical branch: one candidate per distinct \<^verbatim>\<open>String(value)\<close>, in first-seen order.\<close>

definition scan_categorical :: "jsconv \<Rightarrow> string \<Rightarrow> DataPoint list \<Rightarrow> string \<Rightarrow> best \<Rightarrow> best" where
  "scan_categorical cv target sub f b =
     foldl (\<lambda>b category.
        try_candidate cv target sub f (Str category) False
          (filter (\<lambda>row. String_js cv (map_of row f) = category) sub)
          (filter (\<lambda>row. String_js cv (map_of row f) \<noteq> category) sub) b)
      b (new_Set (map (\<lambda>row. String_js cv (map_of row f)) sub))"

definition scan_feature :: "jsconv \<Rightarrow> string \<Rightarrow> DataPoint list \<Rightarrow> best \<Rightarrow> string \<Rightarrow> best" where
  "scan_feature cv target sub b f =
     (if list_all is_number (map (\<lambda>row. map_of row f) sub)
      then scan_numeric cv target sub f b
      else scan_categorical cv target sub f b)"

definition init_best :: best where
  "init_best = \<lparr>bestGain = None, bestFeature = [], bestThreshold = Num 0, bestIsNumeric = True\<rparr>"

text \<open>\<^verbatim>\<open>Object.keys(subset[0])\<close> throws a TypeError when the array is empty.\<close>

definition findBestSplit :: "jsconv \<Rightarrow> string \<Rightarrow> DataPoint list \<Rightarrow> error + best" where
  "findBestSplit cv target sub =
     (case sub of
        [] \<Rightarrow> Inl TypeError
      | row0 # _ \<Rightarrow>
          Inr (foldl (scan_feature cv target sub) init_best
                 (filter (\<lambda>f. f \<noteq> target \<and> f \<noteq> ''id'' \<and> f \<noteq> ''loan_id'') (map fst row0))))"

subsection \<open>buildDecisionTree\<close>

text \<open>The two parts of the data under the chosen split, as the builder recomputes them.\<close>

definition split_left :: "jsconv \<Rightarrow> best \<Rightarrow> DataPoint list \<Rightarrow> DataPoint list" where
  "split_left cv split rows =
     (if bestIsNumeric split
      then filter (\<lambda>row. js_le (Number_js cv (map_of row (bestFeature split)))
                          (Number_js cv (Some (bestThreshold split)))) rows
      else filter (\<lambda>row. str_strict_eq (String_js cv (map_of row (bestFeature split)))
                          (bestThreshold split)) rows)"

definition split_right :: "jsconv \<Rightarrow> best \<Rightarrow> DataPoint list \<Rightarrow> DataPoint list" where
  "split_right cv split rows =
     (if bestIsNumeric split
      then filter (\<lambda>row. js_lt (Number_js cv (Some (bestThreshold split)))
                          (Number_js cv (map_of row (bestFeature split)))) rows
      else filter (\<lambda>row. \<not> str_strict_eq (String_js cv (map_of row (bestFeature split)))
                          (bestThreshold split)) rows)"

text \<open>The leaf object, built at two places of the source with the same code.\<close>

definition make_leaf :: "jsconv \<Rightarrow> string \<Rightarrow> DataPoint list \<Rightarrow> error + TreeNode option" where
  "make_leaf cv target rows =
     (case getMajorityClass cv target rows of
        Inl e \<Rightarrow> Inl e
      | Inr majorityClass \<Rightarrow>
          Inr (Some (Leaf majorityClass
            (real (length (filter (\<lambda>row. String_js cv (map_of row target) = majorityClass) rows))
               / real (length rows))
            (length rows)
            (getDistribution cv target rows))))"

text \<open>
  The recursion of the builder is on the two parts of the chosen split. It terminates because
  a split with a gain was accepted by the search only with at least 5 records on each side, and
  the two parts are disjoint: each part is strictly shorter than the data.
\<close>

lemma js_le_lt_excl: "js_le a t \<Longrightarrow> \<not> js_lt t a"
  by (cases a; cases t) auto

lemma length_filter_disjoint:
  assumes "\<And>x. x \<in> set xs \<Longrightarrow> P x \<Longrightarrow> \<not> Q x"
  shows "length (filter P xs) + length (filter Q xs) \<le> length xs"
  using assms by (induction xs) auto

lemma split_parts_le: "length (split_left cv b rows) + length (split_right cv b rows) \<le> length rows"
  unfolding split_left_def split_right_def
  by (auto intro!: length_filter_disjoint dest: js_le_lt_excl)

definition good_split :: "jsconv \<Rightarrow> DataPoint list \<Rightarrow> best \<Rightarrow> bool" where
  "good_split cv sub b =
     (bestGain b = None \<or>
      (5 \<le> length (split_left cv b sub) \<and> 5 \<le> length (split_right cv b sub) \<and>
       (if bestIsNumeric b
        then (\<exists>t. bestThreshold b = Num t) \<and> list_all is_number (map (\<lambda>row. map_of row (bestFeature b)) sub)
        else (\<exists>c. bestThreshold b = Str c))))"

lemma good_try_candidate:
  assumes "good_split cv sub b"
    and "\<And>g. 5 \<le> length left \<Longrightarrow> 5 \<le> length right \<Longrightarrow>
           good_split cv sub \<lparr>bestGain = Some g, bestFeature = f, bestThreshold = thr, bestIsNumeric = isNum\<rparr>"
  shows "good_split cv sub (try_candidate cv target sub f thr isNum left right b)"
  using assms by (simp add: try_candidate_def Let_def)

lemma foldl_invariant:
  assumes "P b" and "\<And>b x. P b \<Longrightarrow> x \<in> set xs \<Longrightarrow> P (step b x)"
  shows "P (foldl step b xs)"
  using assms by (induction xs arbitrary: b) auto

lemma good_scan_numeric:
  assumes "good_split cv sub b" and "list_all is_number (map (\<lambda>row. map_of row f) sub)"
  shows "good_split cv sub (scan_numeric cv target sub f b)"
proof -
  have step: "good_split cv sub (try_candidate cv target sub f (Num t) True
                      (numeric_left cv f (Fin t) sub) (numeric_right cv f (Fin t) sub) b')"
    if "good_split cv sub b'" for b' t
    using that assms(2)
    by (intro good_try_candidate)
       (simp_all add: good_split_def split_left_def split_right_def numeric_left_def numeric_right_def)
  have fold: "good_split cv sub (foldl (\<lambda>b t.
                    try_candidate cv target sub f (Num t) True
                      (numeric_left cv f (Fin t) sub) (numeric_right cv f (Fin t) sub) b) b ts)" for ts
    by (rule foldl_invariant[where P = "good_split cv sub"]) (simp_all add: assms(1) step)
  show ?thesis
    unfolding scan_numeric_def
    by (simp add: Let_def assms(1) fold split: list.splits)
qed

lemma good_scan_categorical:
  assumes "good_split cv sub b"
  shows "good_split cv sub (scan_categorical cv target sub f b)"
proof -
  have step: "good_split cv sub (try_candidate cv target sub f (Str c) False
          (filter (\<lambda>row. String_js cv (map_of row f) = c) sub)
          (filter (\<lambda>row. String_js cv (map_of row f) \<noteq> c) sub) b')"
    if "good_split cv sub b'" for b' c
    using that
    by (intro good_try_candidate)
       (simp_all add: good_split_def split_left_def split_right_def)
  show ?thesis
    unfolding scan_categorical_def
    by (rule foldl_invariant[where P = "good_split cv sub"]) (simp_all add: assms step)
qed

lemma good_scan_feature:
  "good_split cv sub b \<Longrightarrow> good_split cv sub (scan_feature cv target sub b f)"
  by (simp add: scan_feature_def good_scan_numeric good_scan_categorical)

lemma good_findBestSplit:
  "findBestSplit cv target sub = Inr b \<Longrightarrow> good_split cv sub b"
proof -
  have init: "good_split cv sub init_best"
    by (simp add: good_split_def init_best_def)
  have "good_split cv sub (foldl (scan_feature cv target sub) init_best fs)" for fs
    by (rule foldl_invariant[where P = "good_split cv sub"])
       (simp_all add: good_scan_feature init)
  then show "findBestSplit cv target sub = Inr b \<Longrightarrow> good_split cv sub b"
    unfolding findBestSplit_def by (auto split: list.splits)
qed

lemma split_left_shorter:
  assumes "findBestSplit cv target rows = Inr b" "bestGain b = Some g"
  shows "length (split_left cv b rows) < length rows"
    and "length (split_right cv b rows) < length rows"
  using good_findBestSplit[OF assms(1)] assms(2) split_parts_le[of cv b rows]
  by (auto simp: good_split_def)

text \<open>
  \<^verbatim>\<open>buildDecisionTree(data, target, maxDepth = 4)\<close>: \<open>Inr None\<close> is \<^verbatim>\<open>null\<close>, \<open>Inl e\<close> a thrown
  error. \<open>maxDepth\<close> is an integer (negative values never meet the test \<^verbatim>\<open>maxDepth === 0\<close>).
  A split with \<open>bestGain = None\<close> has gain \<^verbatim>\<open>-Infinity\<close>, which is \<^verbatim>\<open><= 0.01\<close>.
\<close>

function buildDecisionTree :: "jsconv \<Rightarrow> DataPoint list \<Rightarrow> string \<Rightarrow> int \<Rightarrow> error + TreeNode option" where
  "buildDecisionTree cv rows target maxDepth =
     (if maxDepth = 0 \<or> length rows < 5 then Inr None
      else
        case findBestSplit cv target rows of
          Inl e \<Rightarrow> Inl e
        | Inr split \<Rightarrow>
            (case bestGain split of
               None \<Rightarrow> make_leaf cv target rows
             | Some gain \<Rightarrow>
                 if gain \<le> 1 / 100 then make_leaf cv target rows
                 else
                   (case buildDecisionTree cv (split_left cv split rows) target (maxDepth - 1) of
                      Inl e \<Rightarrow> Inl e
                    | Inr leftChild \<Rightarrow>
                        (case buildDecisionTree cv (split_right cv split rows) target (maxDepth - 1) of
                           Inl e \<Rightarrow> Inl e
                         | Inr rightChild \<Rightarrow>
                             (case (leftChild, rightChild) of
                                (Some l, Some r) \<Rightarrow>
                                  Inr (Some (Decision
                                    (formatFeatureName (bestFeature split))
                                    gain
                                    (formatFeatureName (bestFeature split))
                                    (bestThreshold split)
                                    (length rows)
                                    (getDistribution cv target rows)
                                    l r))
                              | _ \<Rightarrow> make_leaf cv target rows)))))"
  by pat_completeness auto
termination
  by (relation "measure (\<lambda>(cv, rows, target, maxDepth). length rows)")
     (simp_all add: split_left_shorter)

declare buildDecisionTree.simps [simp del]

section \<open>Inference\<close>

text \<open>
  predictFromTree: the loop \<^verbatim>\<open>while (currentNode.children)\<close> descends until a leaf. A numeric
  threshold (\<^verbatim>\<open>typeof threshold === 'number'\<close>) sends the input left when
  \<^verbatim>\<open>Number(value) <= threshold\<close>, any other threshold when
  \<^verbatim>\<open>String(value) === String(threshold)\<close>; \<^verbatim>\<open>value = input[feature]\<close> is \<^verbatim>\<open>undefined\<close> when the
  input has no such property. The result is \<^verbatim>\<open>{prediction: name, confidence: confidence || 0}\<close>.
  The source has no \<^verbatim>\<open>throw\<close> on this path, so the result type has no error.
\<close>

fun predictFromTree :: "jsconv \<Rightarrow> TreeNode \<Rightarrow> (string \<rightharpoonup> val) \<Rightarrow> string \<times> real" where
  "predictFromTree cv (Leaf n c s d) input = (n, (if c = 0 then 0 else c))"
| "predictFromTree cv (Decision n c f thr s d l r) input =
     (case thr of
        Num t \<Rightarrow>
          if js_le (Number_js cv (input f)) (Fin t)
          then predictFromTree cv l input else predictFromTree cv r input
      | Str t \<Rightarrow>
          if String_js cv (input f) = String_js cv (Some thr)
          then predictFromTree cv l input else predictFromTree cv r input)"

text \<open>
  highlightDecisionPath repeats the loop and pushes every node it visits; the model returns
  the array \<^verbatim>\<open>path\<close> that the source hands to \<^verbatim>\<open>setSelectedPath\<close>.
\<close>

fun highlightDecisionPath :: "jsconv \<Rightarrow> TreeNode \<Rightarrow> (string \<rightharpoonup> val) \<Rightarrow> TreeNode list" where
  "highlightDecisionPath cv (Leaf n c s d) input = [Leaf n c s d]"
| "highlightDecisionPath cv (Decision n c f thr s d l r) input =
     Decision n c f thr s d l r #
     (case thr of
        Num t \<Rightarrow>
          if js_le (Number_js cv (input f)) (Fin t)
          then highlightDecisionPath cv l input else highlightDecisionPath cv r input
      | Str t \<Rightarrow>
          if String_js cv (input f) = String_js cv (Some thr)
          then highlightDecisionPath cv l input else highlightDecisionPath cv r input)"

section \<open>Feature importance\<close>

text \<open>
  \<^verbatim>\<open>traverse(node, depth)\<close> updates \<^verbatim>\<open>importanceMap\<close> and \<^verbatim>\<open>totalImportance\<close>; the state is
  passed explicitly. A leaf has no \<^verbatim>\<open>feature\<close> and no \<^verbatim>\<open>children\<close>. The test
  \<^verbatim>\<open>if (node.feature)\<close> is false for the empty string; \<^verbatim>\<open>x || d\<close> replaces a zero by \<open>d\<close>.
\<close>

fun traverse :: "TreeNode \<Rightarrow> nat \<Rightarrow> real obj \<times> real \<Rightarrow> real obj \<times> real" where
  "traverse (Leaf n c s d) depth st = st"
| "traverse (Decision n c f thr s d l r) depth (importanceMap, totalImportance) =
     (let st1 =
        (if f \<noteq> [] then
           let nodeImportance =
                 ((if s = 0 then 1 else real s) / 100) * (9 / 10) ^ depth * (if c = 0 then 1 / 2 else c)
           in (obj_set importanceMap f
                 ((case map_of importanceMap f of None \<Rightarrow> 0 | Some v \<Rightarrow> v) + nodeImportance),
               totalImportance + nodeImportance)
         else (importanceMap, totalImportance))
      in traverse r (depth + 1) (traverse l (depth + 1) st1))"

text \<open>
  The comparator \<^verbatim>\<open>(a, b) => b.importance - a.importance\<close> with the stable
  \<^verbatim>\<open>Array.prototype.sort\<close>: ascending in the negated weight, equal weights in their former order.
\<close>

definition calculateFeatureImportance :: "TreeNode option \<Rightarrow> (string \<times> real) list" where
  "calculateFeatureImportance tree =
     (case tree of
        None \<Rightarrow> []
      | Some t \<Rightarrow>
          (case traverse t 0 ([], 0) of
             (importanceMap, totalImportance) \<Rightarrow>
               sort_key (\<lambda>e. - snd e)
                 (obj_entries
                    (if totalImportance > 0
                     then map (\<lambda>(k, v). (k, v / totalImportance)) importanceMap
                     else importanceMap))))"

section \<open>Concrete data\<close>

text \<open>
  An instance of the two built-in conversions on integer numerals, to state closed examples:
  \<^verbatim>\<open>String(n)\<close> writes an integer in decimal, \<^verbatim>\<open>Number(s)\<close> reads a string of decimal digits
  (\<^verbatim>\<open>Number('')\<close> is 0) and is NaN on the other strings it is given here. It is not the
  built-ins on other arguments (fractions, exponents). The examples below have string labels
  and number features, so neither conversion is applied in them.
\<close>

fun digits :: "nat \<Rightarrow> string" where
  "digits n =
     (if n < 10 then [char_of (48 + n)] else digits (n div 10) @ [char_of (48 + n mod 10)])"

definition js0 :: jsconv where
  "js0 = \<lparr>num_str = (\<lambda>r. if r < 0 then CHR ''-'' # digits (nat \<lfloor>- r\<rfloor>) else digits (nat \<lfloor>r\<rfloor>)),
          str_num = (\<lambda>s. if list_all is_digit s then Fin (real (dec_value s)) else NaN)\<rparr>"

text \<open>The scenario of the specification: five records, target \<open>y\<close>.\<close>

definition scenario5 :: "DataPoint list" where
  "scenario5 =
    [[(''x'', Num 1), (''y'', Str ''a'')],
     [(''x'', Num 2), (''y'', Str ''a'')],
     [(''x'', Num 8), (''y'', Str ''b'')],
     [(''x'', Num 9), (''y'', Str ''b'')],
     [(''x'', Num 10), (''y'', Str ''b'')]]"

text \<open>Ten records that one threshold separates: \<open>x = 1..5\<close> are \<open>a\<close>, \<open>x = 6..10\<close> are \<open>b\<close>.\<close>

definition ten :: "string \<Rightarrow> DataPoint list" where
  "ten col =
    [[(col, Num 1), (''y'', Str ''a'')],
     [(col, Num 2), (''y'', Str ''a'')],
     [(col, Num 3), (''y'', Str ''a'')],
     [(col, Num 4), (''y'', Str ''a'')],
     [(col, Num 5), (''y'', Str ''a'')],
     [(col, Num 6), (''y'', Str ''b'')],
     [(col, Num 7), (''y'', Str ''b'')],
     [(col, Num 8), (''y'', Str ''b'')],
     [(col, Num 9), (''y'', Str ''b'')],
     [(col, Num 10), (''y'', Str ''b'')]]"

section \<open>Notions used in the statements\<close>

text \<open>
  The nodes of a tree in preorder, its leaves from left to right, and the count of a class in
  a distribution (0 when the class is not a key).
\<close>

fun subtrees :: "TreeNode \<Rightarrow> TreeNode list" where
  "subtrees (Leaf n c s d) = [Leaf n c s d]"
| "subtrees (Decision n c f thr s d l r) = Decision n c f thr s d l r # subtrees l @ subtrees r"

fun leaves :: "TreeNode \<Rightarrow> TreeNode list" where
  "leaves (Leaf n c s d) = [Leaf n c s d]"
| "leaves (Decision n c f thr s d l r) = leaves l @ leaves r"

definition dist_count :: "nat obj \<Rightarrow> string \<Rightarrow> nat" where
  "dist_count d k = (case map_of d k of None \<Rightarrow> 0 | Some n \<Rightarrow> n)"

text \<open>The label of a record, \<^verbatim>\<open>String(row[target])\<close>.\<close>

definition label_of :: "jsconv \<Rightarrow> string \<Rightarrow> DataPoint \<Rightarrow> string" where
  "label_of cv target row = String_js cv (map_of row target)"

text \<open>
  The two sums at one node, for the class \<open>k\<close>: the children's counts of \<open>k\<close> add up to the
  node's, and the children's sample counts add up to the node's.
\<close>

definition node_sums :: "string \<Rightarrow> TreeNode \<Rightarrow> bool" where
  "node_sums k t =
     (case t of
        Leaf n c s d \<Rightarrow> True
      | Decision n c f thr s d l r \<Rightarrow>
          dist_count (distribution l) k + dist_count (distribution r) k = dist_count d k \<and>
          samples l + samples r = s)"

text \<open>
  Every number of the data is below \<open>2^53\<close> in magnitude: the doubles there are at most 1
  apart, and the threshold loop of the source ends.
\<close>

definition safe_numbers :: "DataPoint list \<Rightarrow> bool" where
  "safe_numbers rows =
     list_all (\<lambda>row. list_all (\<lambda>e. case snd e of Num r \<Rightarrow> \<bar>r\<bar> < 2 ^ 53 | Str s \<Rightarrow> True) row) rows"

text \<open>No record has the target column; a search state whose best gain is not above 0.\<close>

definition target_absent :: "string \<Rightarrow> DataPoint list \<Rightarrow> bool" where
  "target_absent target rows = list_all (\<lambda>row. map_of row target = None) rows"

definition no_gain :: "best \<Rightarrow> bool" where
  "no_gain b = (bestGain b = None \<or> bestGain b = Some 0)"

text \<open>
  The specification of the importance, in its own words: every decision node contributes
  \<open>(samples / 100) * 0.9 ^ depth * splitQuality\<close> to the total of its feature (the root has
  depth 0, the split quality is the gain stored on the node); every total is divided by the
  grand total; the list is sorted by descending weight, equal weights in first-encountered
  order.
\<close>

fun contributions :: "TreeNode \<Rightarrow> nat \<Rightarrow> (string \<times> real) list" where
  "contributions (Leaf n c s d) depth = []"
| "contributions (Decision n c f thr s d l r) depth =
     (f, (real s / 100) * (9 / 10) ^ depth * c)
       # contributions l (depth + 1) @ contributions r (depth + 1)"

definition feature_total :: "(string \<times> real) list \<Rightarrow> string \<Rightarrow> real" where
  "feature_total cs f = sum_list (map snd (filter (\<lambda>e. fst e = f) cs))"

definition grand_total :: "(string \<times> real) list \<Rightarrow> real" where
  "grand_total cs = sum_list (map snd cs)"

definition importance_spec :: "TreeNode \<Rightarrow> (string \<times> real) list" where
  "importance_spec t =
     (let cs = contributions t 0
      in sort_key (\<lambda>e. - snd e)
           (map (\<lambda>f. (f, feature_total cs f / grand_total cs)) (new_Set (map fst cs))))"

text \<open>
  One accumulation step of \<^verbatim>\<open>traverse\<close> and the value it reads; the trees whose decision nodes
  have a positive sample count and gain (\<open>positive\<close>), and those on which \<^verbatim>\<open>traverse\<close> counts
  every decision node (\<open>counted\<close>: moreover no feature name is empty).
\<close>

definition accumulate :: "real obj \<Rightarrow> string \<times> real \<Rightarrow> real obj" where
  "accumulate m e =
     obj_set m (fst e) ((case map_of m (fst e) of None \<Rightarrow> 0 | Some v \<Rightarrow> v) + snd e)"

definition value_of :: "real obj \<Rightarrow> string \<Rightarrow> real" where
  "value_of m f = (case map_of m f of None \<Rightarrow> 0 | Some v \<Rightarrow> v)"

fun positive :: "TreeNode \<Rightarrow> bool" where
  "positive (Leaf n c s d) = True"
| "positive (Decision n c f thr s d l r) = (s \<noteq> 0 \<and> 0 < c \<and> positive l \<and> positive r)"

fun counted :: "TreeNode \<Rightarrow> bool" where
  "counted (Leaf n c s d) = True"
| "counted (Decision n c f thr s d l r) =
     (f \<noteq> [] \<and> s \<noteq> 0 \<and> 0 < c \<and> counted l \<and> counted r)"

text \<open>
  The two halves of the ten records, the tree that the builder returns on them when the
  feature column is \<open>x\<close>, and the tree it returns when the feature column is named by the
  empty string.
\<close>

definition ten_left :: "string \<Rightarrow> DataPoint list" where
  "ten_left col = take 5 (ten col)"

definition ten_right :: "string \<Rightarrow> DataPoint list" where
  "ten_right col = drop 5 (ten col)"

definition ten_tree :: TreeNode where
  "ten_tree = Decision ''X'' 1 ''X'' (Num 5) 10 [(''a'', 5), (''b'', 5)]
       (Leaf ''a'' 1 5 [(''a'', 5)]) (Leaf ''b'' 1 5 [(''b'', 5)])"

definition ten_tree_unnamed :: TreeNode where
  "ten_tree_unnamed = Decision [] 1 [] (Num 5) 10 [(''a'', 5), (''b'', 5)]
       (Leaf ''a'' 1 5 [(''a'', 5)]) (Leaf ''b'' 1 5 [(''b'', 5)])"

section \<open>Properties of the builder\<close>

subsection \<open>Fewer than ten records are never split\<close>

text \<open>
  The two parts of a candidate are disjoint, so with fewer than 10 records one of them has
  fewer than 5 and the candidate is skipped: the search returns its initial state.
\<close>

lemma foldl_unchanged:
  assumes "\<And>x. x \<in> set xs \<Longrightarrow> step b x = b"
  shows "foldl step b xs = b"
  using assms by (induction xs) auto

lemma try_candidate_small:
  assumes "length left + length right \<le> length sub" "length sub < 10"
  shows "try_candidate cv target sub f thr isNum left right b = b"
proof -
  have "length left < 5 \<or> length right < 5" using assms by linarith
  then show ?thesis by (simp add: try_candidate_def)
qed

lemma numeric_parts_le:
  "length (numeric_left cv f t sub) + length (numeric_right cv f t sub) \<le> length sub"
  unfolding numeric_left_def numeric_right_def
  by (auto intro!: length_filter_disjoint dest: js_le_lt_excl)

lemma scan_numeric_small: "length sub < 10 \<Longrightarrow> scan_numeric cv target sub f b = b"
  unfolding scan_numeric_def
  by (simp add: Let_def try_candidate_small numeric_parts_le foldl_unchanged split: list.splits)

lemma scan_categorical_small: "length sub < 10 \<Longrightarrow> scan_categorical cv target sub f b = b"
  unfolding scan_categorical_def
  by (simp add: try_candidate_small sum_length_filter_compl foldl_unchanged)

lemma scan_feature_small: "length sub < 10 \<Longrightarrow> scan_feature cv target sub b f = b"
  by (simp add: scan_feature_def scan_numeric_small scan_categorical_small)

lemma findBestSplit_small:
  "sub \<noteq> [] \<Longrightarrow> length sub < 10 \<Longrightarrow> findBestSplit cv target sub = Inr init_best"
  unfolding findBestSplit_def
  by (cases sub) (simp_all add: scan_feature_small foldl_unchanged)

lemma build_small:
  assumes "5 \<le> length rows" "length rows < 10" "maxDepth \<noteq> 0"
  shows "buildDecisionTree cv rows target maxDepth = make_leaf cv target rows"
proof -
  have "rows \<noteq> []" using assms by auto
  then show ?thesis
    using assms
    by (subst buildDecisionTree.simps) (simp add: findBestSplit_small init_best_def)
qed

subsection \<open>The concrete scenarios\<close>

lemma array_index_labels:
  "array_index ''a'' = None" "array_index ''b'' = None" "array_index ''undefined'' = None"
  by (simp_all add: array_index_def is_digit_def)

lemma getDistribution_scenario5: "getDistribution cv ''y'' scenario5 = [(''a'', 2), (''b'', 3)]"
  by (simp add: getDistribution_def scenario5_def count_row_def)

lemma make_leaf_scenario5:
  "make_leaf cv ''y'' scenario5 = Inr (Some (Leaf ''b'' (3 / 5) 5 [(''a'', 2), (''b'', 3)]))"
  by (simp add: make_leaf_def getMajorityClass_def getDistribution_scenario5 obj_entries_def
      array_index_labels)
     (simp add: scenario5_def)

lemma length_scenario5: "length scenario5 = 5"
  by (simp add: scenario5_def)

lemma build_scenario5:
  "maxDepth \<noteq> 0 \<Longrightarrow>
   buildDecisionTree cv scenario5 ''y'' maxDepth =
     Inr (Some (Leaf ''b'' (3 / 5) 5 [(''a'', 2), (''b'', 3)]))"
  by (simp add: build_small make_leaf_scenario5 length_scenario5)

subsection \<open>The search succeeds on data that is not empty\<close>

text \<open>\<^verbatim>\<open>Object.keys(subset[0])\<close> throws only on an empty array.\<close>

lemma findBestSplit_total: "rows \<noteq> [] \<Longrightarrow> \<exists>b. findBestSplit cv target rows = Inr b"
  by (cases rows) (simp_all add: findBestSplit_def)

subsection \<open>The ten records\<close>

lemma log2_half: "log 2 (1 / 2) = - 1"
  by (simp add: log_divide)

lemma getDistribution_ten:
  "col \<noteq> ''y'' \<Longrightarrow> getDistribution cv ''y'' (ten col) = [(''a'', 5), (''b'', 5)]"
  by (simp add: getDistribution_def ten_def count_row_def)

lemma obj_entries_ab: "obj_entries [(''a'', m :: nat), (''b'', n)] = [(''a'', m), (''b'', n)]"
  by (simp add: obj_entries_def array_index_labels)

lemma obj_entries_single:
  "obj_entries [(''a'', m :: nat)] = [(''a'', m)]" "obj_entries [(''b'', m :: nat)] = [(''b'', m)]"
  by (simp_all add: obj_entries_def array_index_labels)

lemma length_ten: "length (ten col) = 10"
  by (simp add: ten_def)

lemma getEntropy_ten: "col \<noteq> ''y'' \<Longrightarrow> getEntropy cv ''y'' (ten col) = 1"
  by (simp add: getEntropy_def getDistribution_ten obj_entries_ab length_ten log2_half)

lemma getDistribution_ten_parts:
  "col \<noteq> ''y'' \<Longrightarrow> getDistribution cv ''y'' (ten_left col) = [(''a'', 5)]"
  "col \<noteq> ''y'' \<Longrightarrow> getDistribution cv ''y'' (ten_right col) = [(''b'', 5)]"
  by (simp_all add: getDistribution_def ten_def ten_left_def ten_right_def count_row_def)

lemma length_ten_parts: "length (ten_left col) = 5" "length (ten_right col) = 5"
  by (simp_all add: ten_left_def ten_right_def length_ten)

lemma getEntropy_ten_parts:
  "col \<noteq> ''y'' \<Longrightarrow> getEntropy cv ''y'' (ten_left col) = 0"
  "col \<noteq> ''y'' \<Longrightarrow> getEntropy cv ''y'' (ten_right col) = 0"
  by (simp_all add: getEntropy_def getDistribution_ten_parts obj_entries_single length_ten_parts)

lemma numeric_left_ten:
  "numeric_left cv col (Fin 5) (ten col) = ten_left col"
  "numeric_right cv col (Fin 5) (ten col) = ten_right col"
  by (simp_all add: numeric_left_def numeric_right_def ten_def ten_left_def ten_right_def)

lemma ten_skipped:
  "t \<in> {2, 3, 4, 6, 7, 8, 9} \<Longrightarrow>
   length (numeric_left cv col (Fin t) (ten col)) < 5 \<or>
   length (numeric_right cv col (Fin t) (ten col)) < 5"
  by (auto simp: numeric_left_def numeric_right_def ten_def)


lemma try_candidate_skip:
  "length left < 5 \<or> length right < 5 \<Longrightarrow>
   try_candidate cv target sub f thr isNum left right b = b"
  by (simp add: try_candidate_def)

lemma try_ten_skipped:
  "t \<in> {2, 3, 4, 6, 7, 8, 9} \<Longrightarrow>
   try_candidate cv ''y'' (ten col) col (Num t) True
     (numeric_left cv col (Fin t) (ten col)) (numeric_right cv col (Fin t) (ten col)) b = b"
  by (rule try_candidate_skip) (rule ten_skipped)

lemma try_ten_5:
  "col \<noteq> ''y'' \<Longrightarrow>
   try_candidate cv ''y'' (ten col) col (Num 5) True
     (numeric_left cv col (Fin 5) (ten col)) (numeric_right cv col (Fin 5) (ten col)) init_best
   = \<lparr>bestGain = Some 1, bestFeature = col, bestThreshold = Num 5, bestIsNumeric = True\<rparr>"
  by (simp add: try_candidate_def numeric_left_ten length_ten_parts length_ten
        getEntropy_ten getEntropy_ten_parts init_best_def)

lemma thresholds_ten: "thresholds 2 1 10 = [2, 3, 4, 5, 6, 7, 8, 9]"
  by (simp add: thresholds.simps)

lemma numericValues_ten: "numericValues col (ten col) = [1, 2, 3, 4, 5, 6, 7, 8, 9, 10]"
  by (simp add: numericValues_def ten_def)

lemma scan_numeric_ten:
  "col \<noteq> ''y'' \<Longrightarrow>
   scan_numeric cv ''y'' (ten col) col init_best
   = \<lparr>bestGain = Some 1, bestFeature = col, bestThreshold = Num 5, bestIsNumeric = True\<rparr>"
  by (simp add: scan_numeric_def numericValues_ten thresholds_ten try_ten_skipped try_ten_5)

lemma ten_is_number: "list_all is_number (map (\<lambda>row. map_of row col) (ten col))"
  by (simp add: ten_def)

lemma findBestSplit_hd:
  "sub \<noteq> [] \<Longrightarrow>
   findBestSplit cv target sub =
     Inr (foldl (scan_feature cv target sub) init_best
            (filter (\<lambda>f. f \<noteq> target \<and> f \<noteq> ''id'' \<and> f \<noteq> ''loan_id'') (map fst (hd sub))))"
  by (cases sub) (simp_all add: findBestSplit_def)

lemma findBestSplit_ten:
  assumes "col \<noteq> ''y''" "col \<noteq> ''id''" "col \<noteq> ''loan_id''"
  shows "findBestSplit cv ''y'' (ten col)
   = Inr \<lparr>bestGain = Some 1, bestFeature = col, bestThreshold = Num 5, bestIsNumeric = True\<rparr>"
proof -
  have keys: "filter (\<lambda>f. f \<noteq> ''y'' \<and> f \<noteq> ''id'' \<and> f \<noteq> ''loan_id'') (map fst (hd (ten col))) = [col]"
    using assms by (simp add: ten_def)
  have "ten col \<noteq> []"
    by (simp add: ten_def)
  then show ?thesis
    using assms(1)
    by (simp add: findBestSplit_hd keys scan_feature_def ten_is_number scan_numeric_ten)
qed

lemma make_leaf_ten_parts:
  "col \<noteq> ''y'' \<Longrightarrow> make_leaf cv ''y'' (ten_left col) = Inr (Some (Leaf ''a'' 1 5 [(''a'', 5)]))"
  "col \<noteq> ''y'' \<Longrightarrow> make_leaf cv ''y'' (ten_right col) = Inr (Some (Leaf ''b'' 1 5 [(''b'', 5)]))"
  by (simp_all add: make_leaf_def getMajorityClass_def getDistribution_ten_parts obj_entries_single
        length_ten_parts)
     (simp_all add: ten_left_def ten_right_def ten_def)

lemma split_ten:
  "split_left cv \<lparr>bestGain = Some 1, bestFeature = col, bestThreshold = Num 5, bestIsNumeric = True\<rparr> (ten col) = ten_left col"
  "split_right cv \<lparr>bestGain = Some 1, bestFeature = col, bestThreshold = Num 5, bestIsNumeric = True\<rparr> (ten col) = ten_right col"
  by (simp_all add: split_left_def split_right_def ten_def ten_left_def ten_right_def)

lemma build_ten:
  assumes "col \<noteq> ''y''" "col \<noteq> ''id''" "col \<noteq> ''loan_id''" "maxDepth \<noteq> 0" "maxDepth \<noteq> 1"
  shows "buildDecisionTree cv (ten col) ''y'' maxDepth =
     Inr (Some (Decision (formatFeatureName col) 1 (formatFeatureName col) (Num 5) 10
       [(''a'', 5), (''b'', 5)]
       (Leaf ''a'' 1 5 [(''a'', 5)]) (Leaf ''b'' 1 5 [(''b'', 5)])))"
proof -
  have l: "buildDecisionTree cv (ten_left col) ''y'' (maxDepth - 1) = Inr (Some (Leaf ''a'' 1 5 [(''a'', 5)]))"
    using assms by (simp add: build_small length_ten_parts make_leaf_ten_parts)
  have r: "buildDecisionTree cv (ten_right col) ''y'' (maxDepth - 1) = Inr (Some (Leaf ''b'' 1 5 [(''b'', 5)]))"
    using assms by (simp add: build_small length_ten_parts make_leaf_ten_parts)
  show ?thesis
    using assms
    by (subst buildDecisionTree.simps)
       (simp add: findBestSplit_ten length_ten split_ten l r getDistribution_ten)
qed

lemma char_of_88: "char_of (88 :: nat) = CHR ''X''"
  by code_simp

lemma formatFeatureName_examples:
  "formatFeatureName ''x'' = ''X''" "formatFeatureName [] = []"
  by (simp_all add: formatFeatureName_def featureMap_def capitalize_def toUpperCase_def char_of_88)

section \<open>Properties of inference\<close>

text \<open>
  The two traversals agree on every tree, and the prediction is always read off a leaf. The
  builder returns \<open>ten_tree\<close> on the ten records with the feature column \<open>x\<close>.
\<close>

lemma highlightDecisionPath_not_Nil: "highlightDecisionPath cv t input \<noteq> []"
  by (cases t) simp_all

lemma predict_last_path:
  "predictFromTree cv t input =
     (name (last (highlightDecisionPath cv t input)),
      confidence (last (highlightDecisionPath cv t input)))"
  by (induction t) (simp_all add: highlightDecisionPath_not_Nil split: val.splits)

lemma predict_reaches_leaf:
  "\<exists>lf \<in> set (leaves t). predictFromTree cv t input = (name lf, confidence lf)"
  by (induction t) (auto split: val.splits)

lemma build_ten_x: "buildDecisionTree cv (ten ''x'') ''y'' 4 = Inr (Some ten_tree)"
  by (simp add: build_ten formatFeatureName_examples ten_tree_def)

section \<open>The sums of a decision node\<close>

text \<open>
  The distribution that getDistribution builds counts, for every class, the records with that
  label. The two parts of an accepted split are complementary filters of the data, so their
  counts and their lengths add up to those of the data; by induction over the recursion of
  the builder this holds at every decision node of the tree it returns.
\<close>

lemma map_of_obj_set: "map_of (obj_set ob k v) k' = (if k' = k then Some v else map_of ob k')"
  by (induction ob) auto

lemma dist_count_count_row:
  "dist_count (count_row cv target counts row) k =
     dist_count counts k + (if label_of cv target row = k then 1 else 0)"
  by (auto simp: dist_count_def count_row_def Let_def map_of_obj_set label_of_def split: option.splits)

lemma dist_count_foldl:
  "dist_count (foldl (count_row cv target) counts rows) k =
     dist_count counts k + length (filter (\<lambda>row. label_of cv target row = k) rows)"
  by (induction rows arbitrary: counts) (simp_all add: dist_count_count_row)

lemma dist_count_getDistribution:
  "dist_count (getDistribution cv target rows) k =
     length (filter (\<lambda>row. label_of cv target row = k) rows)"
  by (simp add: getDistribution_def dist_count_foldl) (simp add: dist_count_def)

lemma split_complement:
  assumes "good_split cv rows b" "bestGain b \<noteq> None"
  shows "\<exists>P. split_left cv b rows = filter P rows \<and> split_right cv b rows = filter (\<lambda>row. \<not> P row) rows"
proof (cases "bestIsNumeric b")
  case True
  with assms obtain t where t: "bestThreshold b = Num t"
    and num: "list_all is_number (map (\<lambda>row. map_of row (bestFeature b)) rows)"
    by (auto simp: good_split_def)
  have "js_lt (Fin t) (Number_js cv (map_of row (bestFeature b)))
        = (\<not> js_le (Number_js cv (map_of row (bestFeature b))) (Fin t))"
    if "row \<in> set rows" for row
  proof -
    from num that have "is_number (map_of row (bestFeature b))"
      by (auto simp: list_all_iff)
    then obtain r where "map_of row (bestFeature b) = Some (Num r)"
      by (cases "map_of row (bestFeature b)" rule: is_number.cases) auto
    then show ?thesis by auto
  qed
  then have "split_right cv b rows
      = filter (\<lambda>row. \<not> js_le (Number_js cv (map_of row (bestFeature b))) (Fin t)) rows"
    using True t by (auto simp: split_right_def intro!: filter_cong)
  moreover have "split_left cv b rows
      = filter (\<lambda>row. js_le (Number_js cv (map_of row (bestFeature b))) (Fin t)) rows"
    using True t by (simp add: split_left_def)
  ultimately show ?thesis by blast
next
  case False
  then have "split_left cv b rows
      = filter (\<lambda>row. str_strict_eq (String_js cv (map_of row (bestFeature b))) (bestThreshold b)) rows"
    and "split_right cv b rows
      = filter (\<lambda>row. \<not> str_strict_eq (String_js cv (map_of row (bestFeature b))) (bestThreshold b)) rows"
    by (simp_all add: split_left_def split_right_def)
  then show ?thesis by blast
qed

lemma filter_split_sum:
  "length (filter Q (filter P xs)) + length (filter Q (filter (\<lambda>x. \<not> P x) xs))
     = length (filter Q xs)"
  by (induction xs) auto

lemma split_counts:
  assumes "findBestSplit cv target rows = Inr b" "bestGain b = Some g"
  shows "length (filter Q (split_left cv b rows)) + length (filter Q (split_right cv b rows))
           = length (filter Q rows)"
    and "length (split_left cv b rows) + length (split_right cv b rows) = length rows"
proof -
  obtain P where P: "split_left cv b rows = filter P rows"
      "split_right cv b rows = filter (\<lambda>row. \<not> P row) rows"
    using split_complement[OF good_findBestSplit[OF assms(1)]] assms(2) by auto
  show "length (filter Q (split_left cv b rows)) + length (filter Q (split_right cv b rows))
           = length (filter Q rows)"
    unfolding P by (rule filter_split_sum)
  show "length (split_left cv b rows) + length (split_right cv b rows) = length rows"
    unfolding P by (rule sum_length_filter_compl)
qed

lemma make_leaf_fields:
  "make_leaf cv target rows = Inr (Some t) \<Longrightarrow>
   \<exists>n c. t = Leaf n c (length rows) (getDistribution cv target rows)"
  by (auto simp: make_leaf_def split: sum.splits)

lemma build_sums:
  "buildDecisionTree cv rows target maxDepth = Inr (Some t) \<Longrightarrow>
   samples t = length rows \<and> distribution t = getDistribution cv target rows \<and>
   (\<forall>u \<in> set (subtrees t). node_sums k u)"
proof (induction cv rows target maxDepth arbitrary: t rule: buildDecisionTree.induct)
  case (1 cv rows target maxDepth)
  from "1.prems" have ok: "\<not> (maxDepth = 0 \<or> length rows < 5)"
    by (subst (asm) buildDecisionTree.simps) (auto split: if_splits)
  from "1.prems" ok obtain b where b: "findBestSplit cv target rows = Inr b"
    by (subst (asm) buildDecisionTree.simps) (auto split: sum.splits)
  show ?case
  proof (cases "make_leaf cv target rows = Inr (Some t)")
    case True
    then show ?thesis
      using make_leaf_fields[OF True] by (auto simp: node_sums_def)
  next
    case False
    with "1.prems" ok b obtain g l r where g: "bestGain b = Some g" "\<not> g \<le> 1 / 100"
      and l: "buildDecisionTree cv (split_left cv b rows) target (maxDepth - 1) = Inr (Some l)"
      and r: "buildDecisionTree cv (split_right cv b rows) target (maxDepth - 1) = Inr (Some r)"
      and t: "t = Decision (formatFeatureName (bestFeature b)) g (formatFeatureName (bestFeature b))
                (bestThreshold b) (length rows) (getDistribution cv target rows) l r"
      by (subst (asm) buildDecisionTree.simps)
         (auto split: sum.splits option.splits if_splits)
    note ihl = "1.IH"(1)[OF ok b g l]
    note ihr = "1.IH"(2)[OF ok b g l r]
    have "node_sums k t"
      unfolding t node_sums_def
      using ihl ihr split_counts[OF b g(1)]
      by (simp add: dist_count_getDistribution)
    then show ?thesis
      using ihl ihr by (auto simp: t)
  qed
qed

section \<open>A target column that no record has\<close>

text \<open>
  \<^verbatim>\<open>String(row[target])\<close> is the string \<open>undefined\<close> for a record without the target column. When
  no record has it, every subset has the single label \<open>undefined\<close> and entropy 0, so no candidate
  split has a gain above 0.
\<close>

lemma target_absent_filter: "target_absent target rows \<Longrightarrow> target_absent target (filter P rows)"
  by (simp add: target_absent_def list_all_iff)

lemma foldl_count_undefined:
  "target_absent target rows \<Longrightarrow>
   foldl (count_row cv target) [(''undefined'', n)] rows = [(''undefined'', n + length rows)]"
  by (induction rows arbitrary: n) (simp_all add: target_absent_def count_row_def)

lemma getDistribution_absent:
  "target_absent target rows \<Longrightarrow> rows \<noteq> [] \<Longrightarrow>
   getDistribution cv target rows = [(''undefined'', length rows)]"
  by (cases rows)
     (simp_all add: getDistribution_def target_absent_def count_row_def
        foldl_count_undefined[unfolded target_absent_def])

lemma obj_entries_undefined: "obj_entries [(''undefined'', n :: nat)] = [(''undefined'', n)]"
  by (simp add: obj_entries_def array_index_labels)

lemma getEntropy_absent: "target_absent target rows \<Longrightarrow> getEntropy cv target rows = 0"
proof (cases "rows = []")
  case True
  then show ?thesis
    by (simp add: getEntropy_def getDistribution_def obj_entries_def)
next
  case False
  assume "target_absent target rows"
  then show ?thesis
    using False by (simp add: getEntropy_def getDistribution_absent obj_entries_undefined)
qed

lemma try_candidate_no_gain:
  assumes "target_absent target sub" "target_absent target left" "target_absent target right"
    "no_gain b"
  shows "no_gain (try_candidate cv target sub f thr isNum left right b)"
  using assms by (auto simp: try_candidate_def no_gain_def getEntropy_absent Let_def)

lemma scan_feature_no_gain:
  assumes "target_absent target sub" "no_gain b"
  shows "no_gain (scan_feature cv target sub b f)"
proof -
  have num: "no_gain (foldl (\<lambda>b t.
                    try_candidate cv target sub f (Num t) True
                      (numeric_left cv f (Fin t) sub) (numeric_right cv f (Fin t) sub) b) b ts)" for ts
    by (rule foldl_invariant[where P = no_gain])
       (simp_all add: assms try_candidate_no_gain target_absent_filter numeric_left_def numeric_right_def)
  have cat: "no_gain (foldl (\<lambda>b category.
        try_candidate cv target sub f (Str category) False
          (filter (\<lambda>row. String_js cv (map_of row f) = category) sub)
          (filter (\<lambda>row. String_js cv (map_of row f) \<noteq> category) sub) b) b cs)" for cs
    by (rule foldl_invariant[where P = no_gain])
       (simp_all add: assms try_candidate_no_gain target_absent_filter)
  show ?thesis
    by (simp add: scan_feature_def scan_numeric_def scan_categorical_def Let_def num cat assms(2)
          split: list.splits)
qed

lemma findBestSplit_no_gain:
  assumes "target_absent target sub" "findBestSplit cv target sub = Inr b"
  shows "no_gain b"
proof -
  have "no_gain (foldl (scan_feature cv target sub) init_best fs)" for fs
    by (rule foldl_invariant[where P = no_gain])
       (simp_all add: scan_feature_no_gain assms(1), simp add: no_gain_def init_best_def)
  then show ?thesis
    using assms(2) by (auto simp: findBestSplit_def split: list.splits)
qed

lemma make_leaf_absent:
  assumes "target_absent target rows" "rows \<noteq> []"
  shows "make_leaf cv target rows =
     Inr (Some (Leaf ''undefined'' 1 (length rows) [(''undefined'', length rows)]))"
proof -
  have "filter (\<lambda>row. String_js cv (map_of row target) = ''undefined'') rows = rows"
    using assms(1) by (auto simp: target_absent_def list_all_iff intro!: filter_True)
  then show ?thesis
    using assms
    by (simp add: make_leaf_def getMajorityClass_def getDistribution_absent obj_entries_undefined)
qed

lemma build_target_absent:
  assumes "target_absent target rows" "5 \<le> length rows" "maxDepth \<noteq> 0"
  shows "buildDecisionTree cv rows target maxDepth =
     Inr (Some (Leaf ''undefined'' 1 (length rows) [(''undefined'', length rows)]))"
proof -
  have ne: "rows \<noteq> []" using assms(2) by auto
  then obtain b where b: "findBestSplit cv target rows = Inr b"
    using findBestSplit_total by blast
  have "no_gain b"
    using findBestSplit_no_gain[OF assms(1) b] .
  then have "buildDecisionTree cv rows target maxDepth = make_leaf cv target rows"
    using assms(2,3) b
    by (subst buildDecisionTree.simps) (auto simp: no_gain_def)
  then show ?thesis
    by (simp add: make_leaf_absent[OF assms(1) ne])
qed

section \<open>Feature importance on the ten records\<close>

text \<open>
  On the ten records with the feature column named by the empty string the builder returns a
  decision node whose \<^verbatim>\<open>feature\<close> is the empty string, and the importance of that tree is the
  empty list; with the column \<open>x\<close> it is the single feature \<open>X\<close> with weight 1.
\<close>

lemma build_ten_unnamed: "buildDecisionTree cv (ten []) ''y'' 4 = Inr (Some ten_tree_unnamed)"
  by (simp add: build_ten formatFeatureName_examples ten_tree_unnamed_def)

lemma importance_ten_tree_unnamed: "calculateFeatureImportance (Some ten_tree_unnamed) = []"
  by (simp add: calculateFeatureImportance_def ten_tree_unnamed_def obj_entries_def)

lemma array_index_X: "array_index ''X'' = None"
  by (simp add: array_index_def is_digit_def)

lemma importance_ten_tree: "calculateFeatureImportance (Some ten_tree) = [(''X'', 1)]"
  by (simp add: calculateFeatureImportance_def ten_tree_def obj_entries_def array_index_X Let_def)

section \<open>Feature importance against its specification\<close>

text \<open>
  On a tree all of whose decision nodes are counted, \<^verbatim>\<open>traverse\<close> folds the accumulation step
  over the contributions, so \<^verbatim>\<open>importanceMap\<close> holds the total of every feature in
  first-encountered order and \<^verbatim>\<open>totalImportance\<close> is the grand total.
\<close>

lemma traverse_contributions:
  "counted t \<Longrightarrow>
   traverse t depth (m, tot) =
     (foldl accumulate m (contributions t depth), tot + grand_total (contributions t depth))"
proof (induction t arbitrary: depth m tot)
  case (Leaf n c s d)
  then show ?case by (simp add: grand_total_def)
next
  case (Decision n c f thr s d l r)
  then show ?case
    by (simp add: Let_def grand_total_def accumulate_def algebra_simps)
qed

lemma keys_obj_set: "map fst (obj_set m k v) = set_add (map fst m) k"
  by (induction m) (force simp: set_add_def)+

lemma keys_accumulate: "map fst (accumulate m e) = set_add (map fst m) (fst e)"
  by (simp add: accumulate_def keys_obj_set)

lemma keys_foldl_accumulate:
  "map fst (foldl accumulate m cs) = foldl set_add (map fst m) (map fst cs)"
  by (induction cs arbitrary: m) (simp_all add: keys_accumulate)

lemma map_of_accumulate:
  "map_of (accumulate m e) f =
     (if f = fst e then Some ((case map_of m f of None \<Rightarrow> 0 | Some v \<Rightarrow> v) + snd e)
      else map_of m f)"
  by (simp add: accumulate_def map_of_obj_set)

lemma value_of_accumulate:
  "value_of (accumulate m e) f = value_of m f + (if f = fst e then snd e else 0)"
  by (simp add: value_of_def map_of_accumulate)

lemma value_of_foldl_accumulate:
  "value_of (foldl accumulate m cs) f = value_of m f + feature_total cs f"
  by (induction cs arbitrary: m) (auto simp: value_of_accumulate feature_total_def)

lemma distinct_set_add: "distinct ks \<Longrightarrow> distinct (set_add ks k)"
  by (simp add: set_add_def)

lemma distinct_foldl_set_add: "distinct ks \<Longrightarrow> distinct (foldl set_add ks xs)"
  by (induction xs arbitrary: ks) (simp_all add: distinct_set_add)

lemma distinct_new_Set: "distinct (new_Set xs)"
  by (simp add: new_Set_def distinct_foldl_set_add)

lemma obj_from_keys:
  assumes "distinct (map fst m)"
  shows "map (\<lambda>k. (k, value_of m k)) (map fst m) = m"
  using assms
proof (induction m)
  case Nil
  then show ?case by simp
next
  case (Cons e m)
  obtain a b where e: "e = (a, b)" by (cases e)
  have ih: "map (\<lambda>k. (k, value_of m k)) (map fst m) = m"
    using Cons by simp
  have "value_of (e # m) k = value_of m k" if "k \<in> set (map fst m)" for k
  proof -
    from that Cons.prems have "k \<noteq> fst e" by force
    then show ?thesis by (cases e) (simp add: value_of_def)
  qed
  then have eq: "map (\<lambda>k. (k, value_of (e # m) k)) (map fst m) = map (\<lambda>k. (k, value_of m k)) (map fst m)"
    by (intro map_cong) simp_all
  have head: "value_of (e # m) a = b"
    by (simp add: e value_of_def)
  have "map (\<lambda>k. (k, value_of (e # m) k)) (map fst (e # m))
          = (a, value_of (e # m) a) # map (\<lambda>k. (k, value_of (e # m) k)) (map fst m)"
    by (simp add: e)
  also have "\<dots> = (a, b) # m"
    by (simp only: eq head ih)
  finally show ?case by (simp add: e)
qed

lemma importanceMap_of_contributions:
  "foldl accumulate [] cs = map (\<lambda>f. (f, feature_total cs f)) (new_Set (map fst cs))"
proof -
  let ?m = "foldl accumulate [] cs"
  have keys: "map fst ?m = new_Set (map fst cs)"
    by (simp add: keys_foldl_accumulate new_Set_def)
  then have "distinct (map fst ?m)"
    by (simp add: distinct_new_Set)
  then have "?m = map (\<lambda>k. (k, value_of ?m k)) (map fst ?m)"
    by (simp only: obj_from_keys)
  also have "\<dots> = map (\<lambda>f. (f, feature_total cs f)) (new_Set (map fst cs))"
    by (simp add: keys value_of_foldl_accumulate) (simp add: value_of_def)
  finally show ?thesis .
qed

lemma contributions_pos:
  "counted t \<Longrightarrow> e \<in> set (contributions t depth) \<Longrightarrow> 0 < snd e"
  by (induction t arbitrary: depth) auto

lemma sum_list_pos_nonempty:
  fixes xs :: "real list"
  assumes "xs \<noteq> []" "\<And>x. x \<in> set xs \<Longrightarrow> 0 < x"
  shows "0 < sum_list xs"
  using assms by (induction xs) (auto intro: add_pos_nonneg sum_list_nonneg less_imp_le)

lemma grand_total_pos:
  "counted t \<Longrightarrow> contributions t depth \<noteq> [] \<Longrightarrow> 0 < grand_total (contributions t depth)"
  unfolding grand_total_def
  by (rule sum_list_pos_nonempty) (auto dest: contributions_pos)

lemma sum_obj_set:
  "sum_list (map snd (obj_set m k ((case map_of m k of None \<Rightarrow> 0 | Some v \<Rightarrow> v) + w)))
     = sum_list (map snd m) + (w :: real)"
  by (induction m) auto

lemma sum_foldl_accumulate:
  "sum_list (map snd (foldl accumulate m cs)) = sum_list (map snd m) + grand_total cs"
  by (induction cs arbitrary: m) (simp_all add: grand_total_def accumulate_def sum_obj_set)

lemma sum_list_insort_key:
  fixes g :: "'a \<Rightarrow> real"
  shows "sum_list (map g (insort_key k x xs)) = g x + sum_list (map g xs)"
  by (induction xs) auto

lemma sum_list_sort_key:
  fixes g :: "'a \<Rightarrow> real"
  shows "sum_list (map g (sort_key k xs)) = sum_list (map g xs)"
  by (induction xs) (simp_all add: sum_list_insort_key)

lemma sum_list_filter_compl:
  fixes g :: "'a \<Rightarrow> real"
  shows "sum_list (map g (filter P xs)) + sum_list (map g (filter (\<lambda>x. \<not> P x) xs)) = sum_list (map g xs)"
  by (induction xs) auto

lemma sum_obj_entries:
  "sum_list (map snd (obj_entries ob)) = sum_list (map snd (ob :: real obj))"
  using sum_list_filter_compl [of snd "\<lambda>e. array_index (fst e) \<noteq> None" ob]
  by (simp add: obj_entries_def sum_list_sort_key)

lemma sum_normalised:
  fixes G :: real
  shows "sum_list (map (snd \<circ> (\<lambda>(k, v). (k, v / G))) m) = sum_list (map snd m) / G"
  by (induction m) (auto simp: add_divide_distrib)

lemma importance_of_counted:
  assumes "counted t"
  shows "calculateFeatureImportance (Some t) =
     sort_key (\<lambda>e. - snd e)
       (obj_entries
          (map (\<lambda>(k, v). (k, v / grand_total (contributions t 0)))
             (foldl accumulate [] (contributions t 0))))"
proof (cases "contributions t 0 = []")
  case True
  then show ?thesis
    using assms
    by (simp add: calculateFeatureImportance_def traverse_contributions grand_total_def)
next
  case False
  then have "0 < grand_total (contributions t 0)"
    using assms grand_total_pos by blast
  then show ?thesis
    using assms
    by (simp add: calculateFeatureImportance_def traverse_contributions)
qed

lemma importance_sums_to_one:
  assumes "counted t" "contributions t 0 \<noteq> []"
  shows "sum_list (map snd (calculateFeatureImportance (Some t))) = 1"
proof -
  have "0 < grand_total (contributions t 0)"
    using assms grand_total_pos by blast
  then show ?thesis
    by (simp add: importance_of_counted[OF assms(1)] sum_list_sort_key sum_obj_entries
          sum_normalised sum_foldl_accumulate)
qed

lemma obj_entries_no_index:
  "(\<And>e. e \<in> set ob \<Longrightarrow> array_index (fst e) = None) \<Longrightarrow> obj_entries ob = ob"
  by (simp add: obj_entries_def)

lemma set_foldl_set_add: "set (foldl set_add ks xs) = set ks \<union> set xs"
  by (induction xs arbitrary: ks) (auto simp: set_add_def)

lemma set_new_Set: "set (new_Set xs) = set xs"
  by (simp add: new_Set_def set_foldl_set_add)

lemma importance_refines_spec:
  assumes "counted t"
    and "\<And>e. e \<in> set (contributions t 0) \<Longrightarrow> array_index (fst e) = None"
  shows "calculateFeatureImportance (Some t) = importance_spec t"
proof -
  let ?cs = "contributions t 0"
  let ?norm = "map (\<lambda>f. (f, feature_total ?cs f / grand_total ?cs)) (new_Set (map fst ?cs))"
  have "map (\<lambda>(k, v). (k, v / grand_total ?cs)) (foldl accumulate [] ?cs) = ?norm"
    by (simp add: importanceMap_of_contributions)
  moreover have "obj_entries ?norm = ?norm"
    by (rule obj_entries_no_index) (auto simp: set_new_Set dest: assms(2))
  ultimately show ?thesis
    by (simp add: importance_of_counted[OF assms(1)] importance_spec_def Let_def)
qed

text \<open>
  On the trees the builder returns, every decision node has at least 5 samples and a gain above
  0.01. When no decision node has the empty feature name, \<^verbatim>\<open>traverse\<close> counts every decision
  node; when moreover no feature name is an array index, \<^verbatim>\<open>Object.entries\<close> keeps the insertion
  order and calculateFeatureImportance is the specified list.
\<close>

lemma build_positive:
  "buildDecisionTree cv rows target maxDepth = Inr (Some t) \<Longrightarrow> positive t"
proof (induction cv rows target maxDepth arbitrary: t rule: buildDecisionTree.induct)
  case (1 cv rows target maxDepth)
  from "1.prems" have ok: "\<not> (maxDepth = 0 \<or> length rows < 5)"
    by (subst (asm) buildDecisionTree.simps) (auto split: if_splits)
  from "1.prems" ok obtain b where b: "findBestSplit cv target rows = Inr b"
    by (subst (asm) buildDecisionTree.simps) (auto split: sum.splits)
  show ?case
  proof (cases "make_leaf cv target rows = Inr (Some t)")
    case True
    then show ?thesis
      using make_leaf_fields[OF True] by auto
  next
    case False
    with "1.prems" ok b obtain g l r where g: "bestGain b = Some g" "\<not> g \<le> 1 / 100"
      and l: "buildDecisionTree cv (split_left cv b rows) target (maxDepth - 1) = Inr (Some l)"
      and r: "buildDecisionTree cv (split_right cv b rows) target (maxDepth - 1) = Inr (Some r)"
      and t: "t = Decision (formatFeatureName (bestFeature b)) g (formatFeatureName (bestFeature b))
                (bestThreshold b) (length rows) (getDistribution cv target rows) l r"
      by (subst (asm) buildDecisionTree.simps)
         (auto split: sum.splits option.splits if_splits)
    note ihl = "1.IH"(1)[OF ok b g l]
    note ihr = "1.IH"(2)[OF ok b g l r]
    have "rows \<noteq> []" "0 < g"
      using ok g by auto
    then show ?thesis
      using ihl ihr by (simp add: t)
  qed
qed

lemma counted_iff:
  "counted t = (positive t \<and> [] \<notin> fst ` set (contributions t depth))"
  by (induction t arbitrary: depth) (auto simp: image_Un)

lemma importance_built:
  assumes "buildDecisionTree cv rows target maxDepth = Inr (Some t)"
    and "\<And>f. f \<in> fst ` set (contributions t 0) \<Longrightarrow> f \<noteq> [] \<and> array_index f = None"
  shows "calculateFeatureImportance (Some t) = importance_spec t"
    and "contributions t 0 \<noteq> [] \<Longrightarrow> sum_list (map snd (calculateFeatureImportance (Some t))) = 1"
proof -
  have c: "counted t"
    using build_positive[OF assms(1)] assms(2) by (auto simp: counted_iff[of t 0])
  show "calculateFeatureImportance (Some t) = importance_spec t"
    by (rule importance_refines_spec[OF c]) (use assms(2) in auto)
  show "contributions t 0 \<noteq> [] \<Longrightarrow> sum_list (map snd (calculateFeatureImportance (Some t))) = 1"
    by (rule importance_sums_to_one[OF c])
qed

lemma importance_leaf: "calculateFeatureImportance (Some (Leaf n c s d)) = []"
  by (simp add: calculateFeatureImportance_def obj_entries_def)

lemma importance_spec_ten_tree_unnamed:
  "contributions ten_tree_unnamed 0 = [([], 1 / 10)]"
  "importance_spec ten_tree_unnamed = [([], 1)]"
  by (simp_all add: importance_spec_def ten_tree_unnamed_def new_Set_def set_add_def
        feature_total_def grand_total_def)

section \<open>The claims\<close>

text \<open>
  C1. For every tree returned by buildDecisionTree and every input (complete or not), the label
  and confidence returned by predictFromTree are the name and confidence of the last node of
  the path built by highlightDecisionPath on the same tree and input.
\<close>

theorem predict_agrees_with_path:
  "buildDecisionTree cv rows target maxDepth = Inr (Some t) \<Longrightarrow>
   predictFromTree cv t input =
     (name (last (highlightDecisionPath cv t input)),
      confidence (last (highlightDecisionPath cv t input)))"
  by (rule predict_last_path)

theorem predict_agrees_with_path_witness:
  "buildDecisionTree js0 (ten ''x'') ''y'' 4 = Inr (Some ten_tree) \<and>
   predictFromTree js0 ten_tree [''X'' \<mapsto> Num 3] = (''a'', 1) \<and>
   (name (last (highlightDecisionPath js0 ten_tree [''X'' \<mapsto> Num 3])),
    confidence (last (highlightDecisionPath js0 ten_tree [''X'' \<mapsto> Num 3]))) = (''a'', 1)"
  using predict_agrees_with_path [of js0 "ten ''x''" "''y''" 4 ten_tree "[''X'' \<mapsto> Num 3]"]
  by (simp add: build_ten_x) (simp add: ten_tree_def)

text \<open>
  C2. For every record array with fewer than 5 entries, every target column name and every
  maxDepth, buildDecisionTree returns no tree (\<open>Inr None\<close>, the value \<^verbatim>\<open>null\<close>): neither a node
  nor a thrown error.
\<close>

theorem build_insufficient_data:
  "length rows < 5 \<Longrightarrow> buildDecisionTree cv rows target maxDepth = Inr None"
  by (simp add: buildDecisionTree.simps)

theorem build_insufficient_data_witness:
  "length (take 4 scenario5) < 5 \<and> buildDecisionTree js0 (take 4 scenario5) ''y'' 4 = Inr None"
  using build_insufficient_data [of "take 4 scenario5" js0 "''y''" 4]
  by (simp add: length_scenario5)

text \<open>
  C3. In every tree returned by buildDecisionTree, every decision node satisfies, for every
  class \<open>k\<close>: the counts of \<open>k\<close> in the label distributions of its two children add up to the
  count of \<open>k\<close> in its own distribution; and the sample counts of its two children add up to
  its own sample count.
\<close>

theorem children_sum_to_parent:
  assumes "buildDecisionTree cv rows target maxDepth = Inr (Some t)"
    and "Decision n c f thr s d l r \<in> set (subtrees t)"
  shows "dist_count (distribution l) k + dist_count (distribution r) k = dist_count d k \<and>
         samples l + samples r = s"
proof -
  have "node_sums k (Decision n c f thr s d l r)"
    using build_sums [OF assms(1), of k] assms(2) by blast
  then show ?thesis
    by (simp add: node_sums_def)
qed

theorem children_sum_to_parent_witness:
  "buildDecisionTree js0 (ten ''x'') ''y'' 4 = Inr (Some ten_tree) \<and>
   ten_tree \<in> set (subtrees ten_tree) \<and>
   dist_count (distribution (child0 ten_tree)) ''a''
     + dist_count (distribution (child1 ten_tree)) ''a'' = dist_count (distribution ten_tree) ''a'' \<and>
   dist_count (distribution ten_tree) ''a'' = 5 \<and>
   samples (child0 ten_tree) + samples (child1 ten_tree) = samples ten_tree \<and>
   samples ten_tree = 10"
  using children_sum_to_parent [of js0 "ten ''x''" "''y''" 4 ten_tree "''X''" 1 "''X''" "Num 5" 10
      "[(''a'', 5), (''b'', 5)]" "Leaf ''a'' 1 5 [(''a'', 5)]" "Leaf ''b'' 1 5 [(''b'', 5)]" "''a''"]
  by (simp add: build_ten_x) (simp add: ten_tree_def dist_count_def)

text \<open>
  C4 (the code falls short of the claim). The claim says that on a built tree with at least
  one decision node calculateFeatureImportance accumulates the contribution of every decision
  node and returns weights that sum to 1. \<^verbatim>\<open>traverse\<close> counts a node only \<^verbatim>\<open>if (node.feature)\<close>,
  which is false for the empty string. On the ten records whose feature column is named by
  the empty string the builder returns a decision node, whose contribution is 1/10 and whose
  specified importance is the one-entry list with weight 1; the code returns the empty list.
\<close>

theorem importance_skips_unnamed_feature:
  "buildDecisionTree js0 (ten []) ''y'' 4 = Inr (Some ten_tree_unnamed) \<and>
   contributions ten_tree_unnamed 0 = [([], 1 / 10)] \<and>
   importance_spec ten_tree_unnamed = [([], 1)] \<and>
   calculateFeatureImportance (Some ten_tree_unnamed) = []"
  by (simp add: build_ten_unnamed importance_spec_ten_tree_unnamed importance_ten_tree_unnamed)

text \<open>
  C5 (as stated, refuted). The claim says that predictFromTree fails explicitly when the input
  lacks the split feature of a decision node it reaches. On the tree built from the ten records
  and the empty input, the feature \<open>X\<close> of the root is missing and the call returns the label
  \<open>b\<close> with confidence 1.
\<close>

theorem predict_incomplete_counterexample:
  "buildDecisionTree js0 (ten ''x'') ''y'' 4 = Inr (Some ten_tree) \<and>
   feature ten_tree = ''X'' \<and> Map.empty ''X'' = (None :: val option) \<and>
   predictFromTree js0 ten_tree Map.empty = (''b'', 1)"
  by (simp add: build_ten_x) (simp add: ten_tree_def)

text \<open>
  C5 (amended). predictFromTree never fails. At a decision node whose split feature the input
  lacks, it continues in the right child when the threshold is a number (NaN compares false),
  and, when the threshold is a category, in the left child exactly when the category is the
  string \<open>undefined\<close> (the missing value is compared as \<^verbatim>\<open>String(undefined)\<close>), else in the right
  child.
\<close>

theorem predict_missing_feature:
  "input f = None \<Longrightarrow>
   predictFromTree cv (Decision n c f thr s d l r) input =
     predictFromTree cv
       (case thr of Num x \<Rightarrow> r | Str cat \<Rightarrow> if cat = ''undefined'' then l else r) input"
  by (cases thr) auto

theorem predict_missing_feature_witness:
  "Map.empty ''X'' = (None :: val option) \<and>
   predictFromTree js0 ten_tree Map.empty
     = predictFromTree js0 (Leaf ''b'' 1 5 [(''b'', 5)]) Map.empty \<and>
   predictFromTree js0 (Leaf ''b'' 1 5 [(''b'', 5)]) Map.empty = (''b'', 1)"
  using predict_missing_feature [of Map.empty "''X''" js0 "''X''" 1 "Num 5" 10
      "[(''a'', 5), (''b'', 5)]" "Leaf ''a'' 1 5 [(''a'', 5)]" "Leaf ''b'' 1 5 [(''b'', 5)]"]
  by (simp add: ten_tree_def)

text \<open>
  C6 (as stated, refuted). The claim says that buildDecisionTree fails loudly when the target
  column is absent, the records are at least 5 and maxDepth is positive. The five records of
  the scenario have no column \<open>z\<close>; with target \<open>z\<close> and maxDepth 4 the call returns a tree
  value, a leaf labelled \<open>undefined\<close>.
\<close>

theorem missing_target_counterexample:
  "5 \<le> length scenario5 \<and> (0 :: int) < 4 \<and> target_absent ''z'' scenario5 \<and>
   buildDecisionTree js0 scenario5 ''z'' 4 =
     Inr (Some (Leaf ''undefined'' 1 5 [(''undefined'', 5)]))"
proof -
  have a: "target_absent ''z'' scenario5"
    by (simp add: target_absent_def scenario5_def)
  show ?thesis
    using build_target_absent [OF a, of 4 js0] a by (simp add: length_scenario5)
qed

text \<open>
  C6 (amended). buildDecisionTree never checks that the target column exists. When no record
  has the target column and its name is not inherited from \<^verbatim>\<open>Object.prototype\<close>, the records are
  at least 5 and at most 65535, every number in them is below \<open>2^53\<close> in magnitude and maxDepth
  is not 0, the call does not fail: it reads every label as the string \<open>undefined\<close> and returns
  a single leaf named \<open>undefined\<close> with confidence 1, the number of records as samples and the
  distribution undefined: number of records. (The three bounds keep the call inside what the
  model has of the source: no inherited property is read as the label, the threshold loop
  ends in doubles, and the spread \<^verbatim>\<open>Math.min(...values)\<close> stays within the argument limit.)
\<close>

theorem build_missing_target_leaf:
  assumes "target_absent target rows"
    and "target \<notin> set inherited_names"
    and "safe_numbers rows"
    and "5 \<le> length rows"
    and "length rows \<le> spread_limit"
    and "maxDepth \<noteq> 0"
  shows "buildDecisionTree cv rows target maxDepth =
     Inr (Some (Leaf ''undefined'' 1 (length rows) [(''undefined'', length rows)]))"
  using assms(1,4,6) by (rule build_target_absent)

theorem build_missing_target_leaf_witness:
  "target_absent ''income'' (ten ''x'') \<and> ''income'' \<notin> set inherited_names \<and>
   safe_numbers (ten ''x'') \<and> 5 \<le> length (ten ''x'') \<and> length (ten ''x'') \<le> spread_limit \<and>
   (4 :: int) \<noteq> 0 \<and>
   buildDecisionTree js0 (ten ''x'') ''income'' 4 =
     Inr (Some (Leaf ''undefined'' 1 10 [(''undefined'', 10)]))"
proof -
  have a: "target_absent ''income'' (ten ''x'')"
    by (simp add: target_absent_def ten_def)
  have b: "''income'' \<notin> set inherited_names"
    by (simp add: inherited_names_def)
  have c: "safe_numbers (ten ''x'')"
    by (simp add: safe_numbers_def ten_def)
  have d: "5 \<le> length (ten ''x'')" "length (ten ''x'') \<le> spread_limit"
    by (simp_all add: length_ten spread_limit_def)
  show ?thesis
    using build_missing_target_leaf [OF a b c d, of 4 js0] a b c d by (simp add: length_ten)
qed

text \<open>
  C7 (as stated, refuted). The claim says that maxDepth 0 with at least 5 records produces a
  leaf. The first statement of the builder returns \<^verbatim>\<open>null\<close> when \<^verbatim>\<open>maxDepth === 0\<close>: on the
  five records of the scenario the result is no tree.
\<close>

theorem depth_zero_leaf_counterexample:
  "5 \<le> length scenario5 \<and> buildDecisionTree js0 scenario5 ''y'' 0 = Inr None"
  by (simp add: length_scenario5 buildDecisionTree.simps)

text \<open>
  C7 (amended). For every record array and every target column, buildDecisionTree with
  maxDepth 0 returns no tree (\<^verbatim>\<open>null\<close>): the condition \<^verbatim>\<open>maxDepth === 0\<close> is tested first and
  yields an absent tree, not a leaf.
\<close>

theorem build_depth_zero:
  "buildDecisionTree cv rows target 0 = Inr None"
  by (simp add: buildDecisionTree.simps)

theorem build_depth_zero_witness:
  "buildDecisionTree js0 (ten ''x'') ''y'' 0 = Inr None"
  using build_depth_zero [of js0 "ten ''x''" "''y''"] .

text \<open>
  C8 (as stated, refuted). The claim says that the five records of the scenario, with target
  \<open>y\<close> and maxDepth 2, give a decision node on \<open>x\<close> with two pure leaves. A candidate split needs
  5 records on each side, and 5 records cannot give that: the result is one leaf, labelled
  \<open>b\<close> with confidence 3/5.
\<close>

theorem scenario_split_counterexample:
  "buildDecisionTree js0 scenario5 ''y'' 2 =
     Inr (Some (Leaf ''b'' (3 / 5) 5 [(''a'', 2), (''b'', 3)]))"
  by (simp add: build_scenario5)

text \<open>
  C8 (amended). On the five records of the scenario with target \<open>y\<close>, buildDecisionTree returns,
  for every maxDepth other than 0 and for all conversions, the single leaf labelled \<open>b\<close> with
  confidence 3/5, 5 samples and the distribution a: 2, b: 3.
\<close>

theorem scenario_single_leaf:
  "maxDepth \<noteq> 0 \<Longrightarrow>
   buildDecisionTree cv scenario5 ''y'' maxDepth =
     Inr (Some (Leaf ''b'' (3 / 5) 5 [(''a'', 2), (''b'', 3)]))"
  by (rule build_scenario5)

theorem scenario_single_leaf_witness:
  "(2::int) \<noteq> 0 \<and>
   buildDecisionTree js0 scenario5 ''y'' 2 =
     Inr (Some (Leaf ''b'' (3 / 5) 5 [(''a'', 2), (''b'', 3)]))"
  using scenario_single_leaf [of 2 js0] by simp

text \<open>
  C10. For every tree (so for every tree the builder returns) and every input map,
  predictFromTree, a total function, returns the name and confidence of one of the leaves of
  the tree; and at a decision node with a numeric threshold whose feature the input lacks, the
  comparison on NaN is false and the traversal continues in the right child.
\<close>

theorem predict_total_missing_numeric_right:
  "(\<exists>lf \<in> set (leaves t). predictFromTree cv t input = (name lf, confidence lf)) \<and>
   (input f = None \<longrightarrow>
      predictFromTree cv (Decision n c f (Num x) s d l r) input = predictFromTree cv r input)"
  using predict_reaches_leaf [of t cv input] by simp

theorem predict_total_missing_numeric_right_witness:
  "Map.empty ''X'' = (None :: val option) \<and>
   predictFromTree js0 ten_tree Map.empty = (''b'', 1) \<and>
   Leaf ''b'' 1 5 [(''b'', 5)] \<in> set (leaves ten_tree) \<and>
   predictFromTree js0 ten_tree Map.empty = predictFromTree js0 (Leaf ''b'' 1 5 [(''b'', 5)]) Map.empty"
  using predict_total_missing_numeric_right [of ten_tree js0 Map.empty "''X''" "''X''" 1 5 10
      "[(''a'', 5), (''b'', 5)]" "Leaf ''a'' 1 5 [(''a'', 5)]" "Leaf ''b'' 1 5 [(''b'', 5)]"]
  by (simp add: ten_tree_def)

text \<open>
  C9 (determinism of buildDecisionTree) has no theorem. The builder is embedded as a function
  of the conversions, the records with their key order, the target and the depth, so two calls
  on equal arguments are equal by construction; what the source needs for that (no random
  source, no clock, no global state, iteration orders fixed by the language) is what the
  embedding reads off the source, not a consequence of it.
\<close>

end
